theory Spec2Isabelle
  imports Complex_Main "HOL-Library.Word" "HOL-Library.Log_Nat"
begin

unbundle bit_operations_syntax

section \<open>JavaScript numbers\<close>

text \<open>
  A JavaScript number is an IEEE 754 double. The finite doubles are the real numbers
  \<open>m * 2 ^ e\<close> with \<open>m\<close> an integer of magnitude below \<open>2 ^ 53\<close> and \<open>e\<close> at
  least \<open>- 1074\<close>; the model holds them as real numbers. An arithmetic operator of the
  code gives the exact result rounded to the nearest double, a tie going to the even
  mantissa: \<open>round_double\<close>. The model has the finite doubles only: a result of magnitude
  \<open>2 ^ 1024\<close>, which the code would hold as Infinity, is beyond every clock reading and
  cursor of a run and is not represented.
\<close>

text \<open>The exponent \<open>e\<close> with \<open>2 ^ e \<le> x < 2 ^ (e + 1)\<close>, for positive \<open>x\<close>.\<close>

definition binade :: "real \<Rightarrow> int" where
  "binade x = (if 1 \<le> x then bitlen \<lfloor>x\<rfloor> - 1 else - bitlen (\<lceil>1 / x\<rceil> - 1))"

text \<open>The distance between neighbouring doubles around \<open>x\<close>: 52 mantissa bits below the
  exponent, which is not below \<open>- 1022\<close> (the subnormal numbers).\<close>

definition ulp :: "real \<Rightarrow> real" where
  "ulp x = 2 powi (max (binade \<bar>x\<bar>) (- 1022) - 52)"

text \<open>The nearest integer, the even one of two equally near.\<close>

definition rne :: "real \<Rightarrow> int" where
  "rne y = (let f = \<lfloor>y\<rfloor>; r = y - of_int f
            in if r < 1 / 2 then f else if 1 / 2 < r then f + 1
               else if even f then f else f + 1)"

definition round_double :: "real \<Rightarrow> real" where
  "round_double x = (if x = 0 then 0 else sgn x * (ulp x * of_int (rne (\<bar>x\<bar> / ulp x))))"

definition is_double :: "real \<Rightarrow> bool" where
  "is_double x \<longleftrightarrow> round_double x = x"

text \<open>The operators \<open>+\<close>, \<open>*\<close> and \<open>/\<close> of the code.\<close>

definition dadd :: "real \<Rightarrow> real \<Rightarrow> real" where
  "dadd x y = round_double (x + y)"

definition dmul :: "real \<Rightarrow> real \<Rightarrow> real" where
  "dmul x y = round_double (x * y)"

definition ddiv :: "real \<Rightarrow> real \<Rightarrow> real" where
  "ddiv x y = round_double (x / y)"

section \<open>The streaming playback engine (class LiveMusicHelper)\<close>

text \<open>
  The engine is an object with mutable fields whose methods run on one event-driven
  thread. Each method becomes a function from the object's state to its new state.
  What a method does to the outside world (events dispatched, buffers handed to the
  audio clock, calls on the remote session, gain automation) is appended, in program order,
  to the field \<open>effects\<close>; the callbacks handed to \<open>setTimeout\<close> and not yet run
  are kept in the field \<open>timers\<close>. What the outside world hands to a method (the reading
  of \<open>audioContext.currentTime\<close>, the decoded buffer, whether a remote call is rejected)
  is an argument of the function.

  Clock times, durations and weights are JavaScript numbers: doubles, added with
  \<open>dadd\<close>. A literal of the code such as \<open>0.1\<close> is the double nearest to it.
\<close>

subsection \<open>Data\<close>

datatype PlaybackState = stopped | loading | playing | paused

text \<open>The type Prompt (file types.ts). The engine reads the text and the weight only; the
  fields of the user interface (colour, controller number) are left out.
  The field \<open>text\<close> is written \<open>text'\<close> because \<open>text\<close> is a reserved word here.\<close>

record Prompt =
  promptId :: string
  text' :: string
  weight :: real

text \<open>One chunk of the remote service: its payload may be absent (\<open>data!\<close> in the code).\<close>

record AudioChunk =
  data :: "string option"

text \<open>The decoded buffer (an AudioBuffer of the Web Audio interface): a number of sample
  frames at a sample rate. The scheduler reads its attribute \<open>duration\<close> only, which is
  the number of frames divided by the sample rate, a double. No AudioBuffer has the sample
  rate 0. The attribute \<open>length\<close> is written \<open>length'\<close>.\<close>

record AudioBuffer =
  length' :: nat
  sampleRate :: nat

definition duration :: "AudioBuffer \<Rightarrow> real" where
  "duration b = ddiv (real (length' b)) (real (sampleRate b))"

text \<open>The handle of a remote session is opaque; a number stands for its identity.\<close>

type_synonym LiveMusicSession = nat

text \<open>A promise of a session is modelled by what it settles to.\<close>

datatype Promise = resolves LiveMusicSession | rejects

datatype Event =
    playback_state_changed PlaybackState
  | error_event string
  | filtered_prompt string

datatype SessionCall =
    session_setWeightedPrompts "(string \<times> real) list"
  | session_sendControlChanges real
  | session_play
  | session_pause
  | session_stop

text \<open>Calls on the audio graph. In \<open>gain_setValueAtTime\<close> the value \<open>None\<close> stands for
  "the node's current value" (\<open>this.outputNode.gain.value\<close> in stop).\<close>

datatype GraphCall =
    gain_setValueAtTime "real option" real
  | gain_linearRampToValueAtTime real real
  | context_resume
  | master_connect_destination
  | master_connect_extraDestination
  | master_connect_streamDestination

datatype Effect =
    dispatchEvent Event
  | source_start nat real AudioBuffer
  | session_call LiveMusicSession SessionCall
  | graph_call GraphCall

text \<open>The only callback the engine hands to \<open>setTimeout\<close> is the arrow function of
  processAudioChunks that calls \<open>setPlaybackState('playing')\<close>.\<close>

datatype TimerCallback = flip_to_playing

datatype error = TypeError | ConnectRejected

record LiveMusicHelper =
  session :: "LiveMusicSession option"
  sessionPromise :: "Promise option"
  connectionError :: bool
  filteredPrompts :: "string set"
  nextStartTime :: real
  outputNode :: nat
  extraDestination :: bool
  playbackState :: PlaybackState
  prompts :: "(string \<times> Prompt) list"
  timers :: "(TimerCallback \<times> real) list"
  effects :: "Effect list"

text \<open>The field \<open>bufferTime\<close> is initialised to 2 and never assigned: a constant.\<close>

definition bufferTime :: real where
  "bufferTime = 2"

text \<open>The state the constructor leaves; \<open>prompts\<close> is the empty Map.\<close>

definition initial :: LiveMusicHelper where
  "initial = \<lparr> session = None, sessionPromise = None, connectionError = True,
     filteredPrompts = {}, nextStartTime = 0, outputNode = 0,
     extraDestination = False, playbackState = stopped, prompts = [],
     timers = [], effects = [] \<rparr>"

subsection \<open>Small steps shared by the methods\<close>

definition emit :: "Effect \<Rightarrow> LiveMusicHelper \<Rightarrow> LiveMusicHelper" where
  "emit e s = s\<lparr>effects := effects s @ [e]\<rparr>"

definition setTimeout :: "TimerCallback \<Rightarrow> real \<Rightarrow> LiveMusicHelper \<Rightarrow> LiveMusicHelper" where
  "setTimeout cb ms s = s\<lparr>timers := timers s @ [(cb, ms)]\<rparr>"

definition setPlaybackState :: "PlaybackState \<Rightarrow> LiveMusicHelper \<Rightarrow> LiveMusicHelper" where
  "setPlaybackState st s =
     emit (dispatchEvent (playback_state_changed st)) (s\<lparr>playbackState := st\<rparr>)"

text \<open>\<open>if (this.session) this.session.f()\<close>\<close>

definition call_session_if_any :: "SessionCall \<Rightarrow> LiveMusicHelper \<Rightarrow> LiveMusicHelper" where
  "call_session_if_any c s =
     (case session s of None \<Rightarrow> s | Some h \<Rightarrow> emit (session_call h c) s)"

subsection \<open>pause and stop\<close>

text \<open>pause() makes a fresh gain node: the identity of the output node changes.\<close>

definition pause :: "real \<Rightarrow> LiveMusicHelper \<Rightarrow> LiveMusicHelper" where
  "pause now s =
     (let s1 = call_session_if_any session_pause s;
          s2 = setPlaybackState paused s1;
          s3 = emit (graph_call (gain_setValueAtTime (Some 1) now)) s2;
          s4 = emit (graph_call
                 (gain_linearRampToValueAtTime 0 (dadd now (round_double (1 / 10))))) s3
      in s4\<lparr>nextStartTime := 0, outputNode := Suc (outputNode s4)\<rparr>)"

definition stop :: "real \<Rightarrow> LiveMusicHelper \<Rightarrow> LiveMusicHelper" where
  "stop now s =
     (let s1 = call_session_if_any session_stop s;
          s2 = setPlaybackState stopped s1;
          s3 = emit (graph_call (gain_setValueAtTime None now)) s2;
          s4 = emit (graph_call
                 (gain_linearRampToValueAtTime 0 (dadd now (round_double (1 / 10))))) s3
      in s4\<lparr>nextStartTime := 0, session := None, sessionPromise := None\<rparr>)"

subsection \<open>processAudioChunks\<close>

text \<open>
  The method is asynchronous: it runs up to \<open>await decodeAudioData(...)\<close>, gives the
  thread back, and continues when the decoded buffer is there.
  \<open>processAudioChunks_entry\<close> is the part before the await (the guard, and the read of
  \<open>audioChunks[0].data\<close>, which throws on an empty batch); it changes no field.
  \<open>processAudioChunks_resume\<close> is the part after the await; it is given the decoded
  buffer and the clock reading. It is two statements in a row: the first
  (\<open>if (this.nextStartTime === 0) ...\<close>) primes the cursor and arms the timer, the
  second (\<open>if (this.nextStartTime < this.audioContext.currentTime) ...\<close> and what
  follows it) detects the underrun or schedules the buffer. Both statements read the
  clock within one run of the thread and get the same reading \<open>now\<close>.
\<close>

datatype Entry = returned | threw error | awaiting AudioChunk

definition processAudioChunks_entry :: "AudioChunk list \<Rightarrow> LiveMusicHelper \<Rightarrow> Entry" where
  "processAudioChunks_entry audioChunks s =
     (if playbackState s = paused \<or> playbackState s = stopped then returned
      else case audioChunks of [] \<Rightarrow> threw TypeError | c # _ \<Rightarrow> awaiting c)"

definition prime_cursor :: "real \<Rightarrow> LiveMusicHelper \<Rightarrow> LiveMusicHelper" where
  "prime_cursor now s =
     (if nextStartTime s = 0
      then setTimeout flip_to_playing (dmul bufferTime 1000)
             (s\<lparr>nextStartTime := dadd now bufferTime\<rparr>)
      else s)"

definition schedule_buffer ::
    "AudioBuffer \<Rightarrow> real \<Rightarrow> LiveMusicHelper \<Rightarrow> LiveMusicHelper" where
  "schedule_buffer audioBuffer now s =
     (if nextStartTime s < now
      then (setPlaybackState loading s)\<lparr>nextStartTime := 0\<rparr>
      else (emit (source_start (outputNode s) (nextStartTime s) audioBuffer) s)
             \<lparr>nextStartTime := dadd (nextStartTime s) (duration audioBuffer)\<rparr>)"

definition processAudioChunks_resume ::
    "AudioBuffer \<Rightarrow> real \<Rightarrow> LiveMusicHelper \<Rightarrow> LiveMusicHelper" where
  "processAudioChunks_resume audioBuffer now s =
     schedule_buffer audioBuffer now (prime_cursor now s)"

text \<open>
  One call that nothing interrupts between the await and the continuation: the state the
  continuation finds is the state the guard saw. The decoder (\<open>decodeAudioData\<close> after
  \<open>decode\<close>, file audio.ts) is the parameter \<open>dec\<close>. The result is the exception the
  call ends with, if any, and the state it leaves.
\<close>

definition processAudioChunks ::
    "(AudioChunk \<Rightarrow> AudioBuffer) \<Rightarrow> AudioChunk list \<Rightarrow> real \<Rightarrow> LiveMusicHelper
       \<Rightarrow> error option \<times> LiveMusicHelper" where
  "processAudioChunks dec audioChunks now s =
     (case processAudioChunks_entry audioChunks s of
        returned \<Rightarrow> (None, s)
      | threw e \<Rightarrow> (Some e, s)
      | awaiting c \<Rightarrow> (None, processAudioChunks_resume (dec c) now s))"

text \<open>The body of a callback handed to \<open>setTimeout\<close>.\<close>

fun run_callback :: "TimerCallback \<Rightarrow> LiveMusicHelper \<Rightarrow> LiveMusicHelper" where
  "run_callback flip_to_playing s = setPlaybackState playing s"

text \<open>A one-shot timer runs its callback once and is gone: the oldest pending callback
  fires first (all are armed with the same delay). Nothing in the class cancels a timer:
  the handle that \<open>setTimeout\<close> returns is dropped and \<open>clearTimeout\<close> is never
  called.\<close>

definition timer_fires :: "LiveMusicHelper \<Rightarrow> LiveMusicHelper" where
  "timer_fires s =
     (case timers s of
        [] \<Rightarrow> s
      | (cb, _) # rest \<Rightarrow> run_callback cb (s\<lparr>timers := rest\<rparr>))"

subsection \<open>Prompts\<close>

text \<open>
  \<open>prompts\<close> is a JavaScript Map: an association list in insertion order, whose values
  \<open>Array.from(this.prompts.values())\<close> lists in that order.
\<close>

definition activePrompts :: "LiveMusicHelper \<Rightarrow> Prompt list" where
  "activePrompts s =
     filter (\<lambda>p. \<not> (text' p \<in> filteredPrompts s) \<and> weight p \<noteq> 0) (map snd (prompts s))"

text \<open>The messages of the error events, without their accents.\<close>

definition msg_no_active_prompt :: string where
  "msg_no_active_prompt = ''E necessario ter pelo menos um prompt ativo para tocar.''"

definition msg_connection :: string where
  "msg_connection = ''Erro de conexao, por favor, reinicie o audio.''"

text \<open>
  The function handed to \<open>throttle(..., 200)\<close>. The wrapper (file throttle.ts) decides
  when this function runs; the model is one run of it. \<open>rejected\<close> is the message of the
  exception of the remote call \<open>session.setWeightedPrompts\<close>, if it throws.
\<close>

definition setWeightedPrompts ::
    "(string \<times> Prompt) list \<Rightarrow> string option \<Rightarrow> real \<Rightarrow> LiveMusicHelper \<Rightarrow> LiveMusicHelper" where
  "setWeightedPrompts ps rejected now s =
     (let s1 = s\<lparr>prompts := ps\<rparr>
      in if length (activePrompts s1) = 0
         then pause now (emit (dispatchEvent (error_event msg_no_active_prompt)) s1)
         else case session s1 of
                None \<Rightarrow> s1
              | Some h \<Rightarrow>
                  (let weightedPrompts = map (\<lambda>p. (text' p, weight p)) (activePrompts s1);
                       s2 = emit (session_call h (session_setWeightedPrompts weightedPrompts)) s1
                   in case rejected of
                        None \<Rightarrow> s2
                      | Some msg \<Rightarrow> pause now (emit (dispatchEvent (error_event msg)) s2)))"

text \<open>The function handed to \<open>throttle(..., 50)\<close>.\<close>

definition setPitchBend :: "real \<Rightarrow> string option \<Rightarrow> LiveMusicHelper \<Rightarrow> LiveMusicHelper" where
  "setPitchBend v rejected s =
     (case session s of
        None \<Rightarrow> s
      | Some h \<Rightarrow>
          if playbackState s = stopped \<or> playbackState s = paused then s
          else (let s1 = emit (session_call h (session_sendControlChanges v)) s
                in case rejected of
                     None \<Rightarrow> s1
                   | Some msg \<Rightarrow> emit (dispatchEvent (error_event msg)) s1))"

subsection \<open>play and playPause\<close>

text \<open>\<open>conn\<close> is what a new call of \<open>ai.live.music.connect\<close> would settle to.\<close>

definition getSession :: "Promise \<Rightarrow> LiveMusicHelper \<Rightarrow> LiveMusicHelper" where
  "getSession conn s =
     (case sessionPromise s of
        None \<Rightarrow> s\<lparr>sessionPromise := Some conn\<rparr>
      | Some _ \<Rightarrow> s)"

text \<open>
  One call of play() that nothing interrupts at its awaits. \<open>runs\<close> says whether the
  throttle wrapper runs the wrapped setWeightedPrompts within this call.
\<close>

definition play ::
    "Promise \<Rightarrow> bool \<Rightarrow> string option \<Rightarrow> real \<Rightarrow> LiveMusicHelper
       \<Rightarrow> error option \<times> LiveMusicHelper" where
  "play conn runs rejected now s =
     (let s1 = getSession conn (setPlaybackState loading s)
      in case sessionPromise s1 of
           Some (resolves h) \<Rightarrow>
             (let s2 = s1\<lparr>session := Some h\<rparr>;
                  s3 = (if runs then setWeightedPrompts (prompts s2) rejected now s2 else s2);
                  s4 = emit (graph_call context_resume) s3
              in case session s4 of
                   None \<Rightarrow> (Some TypeError, s4)
                 | Some h' \<Rightarrow>
                     (let s5 = emit (session_call h' session_play) s4;
                          s6 = emit (graph_call master_connect_destination) s5;
                          s7 = (if extraDestination s6
                                then emit (graph_call master_connect_extraDestination) s6
                                else s6);
                          s8 = emit (graph_call master_connect_streamDestination) s7;
                          s9 = emit (graph_call (gain_setValueAtTime (Some 0) now)) s8
                      in (None,
                          emit (graph_call
                            (gain_linearRampToValueAtTime 1 (dadd now (round_double (1 / 10)))))
                            s9)))
         | _ \<Rightarrow> (Some ConnectRejected, s1))"

definition playPause ::
    "Promise \<Rightarrow> bool \<Rightarrow> string option \<Rightarrow> real \<Rightarrow> LiveMusicHelper
       \<Rightarrow> error option \<times> LiveMusicHelper" where
  "playPause conn runs rejected now s =
     (case playbackState s of
        playing \<Rightarrow> (None, pause now s)
      | paused \<Rightarrow> play conn runs rejected now s
      | stopped \<Rightarrow> play conn runs rejected now s
      | loading \<Rightarrow> (None, stop now s))"

subsection \<open>The callbacks of the connection\<close>

record LiveMusicServerMessage =
  setupComplete :: bool
  filteredPrompt :: "string option"
  audioChunks :: "AudioChunk list option"

definition onmessage ::
    "(AudioChunk \<Rightarrow> AudioBuffer) \<Rightarrow> LiveMusicServerMessage \<Rightarrow> real \<Rightarrow> LiveMusicHelper
       \<Rightarrow> error option \<times> LiveMusicHelper" where
  "onmessage dec e now s =
     (let s1 = (if setupComplete e then s\<lparr>connectionError := False\<rparr> else s);
          s2 = (case filteredPrompt e of
                  None \<Rightarrow> s1
                | Some t \<Rightarrow> emit (dispatchEvent (filtered_prompt t))
                              (s1\<lparr>filteredPrompts := filteredPrompts s1 \<union> {t}\<rparr>))
      in case audioChunks e of
           None \<Rightarrow> (None, s2)
         | Some cs \<Rightarrow> processAudioChunks dec cs now s2)"

definition onerror :: "real \<Rightarrow> LiveMusicHelper \<Rightarrow> LiveMusicHelper" where
  "onerror now s =
     emit (dispatchEvent (error_event msg_connection)) (stop now (s\<lparr>connectionError := True\<rparr>))"

definition onclose :: "real \<Rightarrow> LiveMusicHelper \<Rightarrow> LiveMusicHelper" where
  "onclose now s =
     emit (dispatchEvent (error_event msg_connection)) (stop now (s\<lparr>connectionError := True\<rparr>))"

subsection \<open>Everything that can happen to the engine\<close>

text \<open>
  One constructor for each method or callback that reads or writes the fields above,
  with what the outside world supplies to it. (The setters of the equaliser and of the
  master volume and the recorder touch none of these fields.)
\<close>

datatype Op =
    op_processAudioChunks "AudioChunk list" real
  | op_setWeightedPrompts "(string \<times> Prompt) list" "string option" real
  | op_setPitchBend real "string option"
  | op_play Promise bool "string option" real
  | op_pause real
  | op_stop real
  | op_playPause Promise bool "string option" real
  | op_onmessage LiveMusicServerMessage real
  | op_onerror real
  | op_onclose real
  | op_timer_fires

fun step :: "(AudioChunk \<Rightarrow> AudioBuffer) \<Rightarrow> Op \<Rightarrow> LiveMusicHelper \<Rightarrow> LiveMusicHelper" where
  "step dec (op_processAudioChunks cs now) s = snd (processAudioChunks dec cs now s)"
| "step dec (op_setWeightedPrompts ps rejected now) s = setWeightedPrompts ps rejected now s"
| "step dec (op_setPitchBend v rejected) s = setPitchBend v rejected s"
| "step dec (op_play conn runs rejected now) s = snd (play conn runs rejected now s)"
| "step dec (op_pause now) s = pause now s"
| "step dec (op_stop now) s = stop now s"
| "step dec (op_playPause conn runs rejected now) s =
     snd (playPause conn runs rejected now s)"
| "step dec (op_onmessage e now) s = snd (onmessage dec e now s)"
| "step dec (op_onerror now) s = onerror now s"
| "step dec (op_onclose now) s = onclose now s"
| "step dec op_timer_fires s = timer_fires s"

section \<open>The MIDI dispatcher (class MidiDispatcher)\<close>

text \<open>
  \<open>event.data\<close> is a Uint8Array: a list of bytes. Reading it past its end gives
  \<open>undefined\<close>, here \<open>None\<close>. The bitwise operators of JavaScript work on 32-bit
  integers, to which \<open>undefined\<close> converts as 0.
\<close>

definition at_index :: "8 word list \<Rightarrow> nat \<Rightarrow> 8 word option" where
  "at_index d i = (if i < length d then Some (d ! i) else None)"

definition ToInt32 :: "8 word option \<Rightarrow> 32 word" where
  "ToInt32 b = (case b of None \<Rightarrow> 0 | Some x \<Rightarrow> ucast x)"

text \<open>The type ControlChange (file types.ts); \<open>value\<close> is written \<open>value'\<close>.\<close>

record ControlChange =
  cc :: "8 word option"
  value' :: "8 word option"
  channel :: "32 word"

datatype MidiEvent =
    cc_message ControlChange
  | pitch_bend_message real

text \<open>
  The handler installed on every input: \<open>input_id\<close> is the id of the input it is
  installed on, \<open>activeMidiInputId\<close> the field of the dispatcher when the message
  comes. The result lists the events dispatched (\<open>console.error\<close> dispatches none).
  The raw value is an integer below \<open>2 ^ 15\<close>: subtracting 8192 and dividing by 8192,
  a power of two, are exact in doubles.
\<close>

definition onmidimessage :: "string \<Rightarrow> string option \<Rightarrow> 8 word list option \<Rightarrow> MidiEvent list" where
  "onmidimessage input_id activeMidiInputId event_data =
     (if Some input_id \<noteq> activeMidiInputId then []
      else case event_data of
             None \<Rightarrow> []
           | Some d \<Rightarrow>
               (let statusByte = ToInt32 (at_index d 0);
                    chan = statusByte AND 0x0f;
                    messageType = statusByte AND 0xf0
                in if messageType = 0xb0
                   then [cc_message \<lparr>cc = at_index d 1, value' = at_index d 2, channel = chan\<rparr>]
                   else if messageType = 0xe0
                   then (let lsb = at_index d 1;
                             msb = at_index d 2;
                             rawValue = push_bit 7 (ToInt32 msb) OR ToInt32 lsb;
                             normalizedValue = (real_of_int (sint rawValue) - 8192) / 8192
                         in [pitch_bend_message normalizedValue])
                   else []))"

section \<open>Notions used to state the properties\<close>

text \<open>Chunk batches processed one after the other, each call running to its end before the
  next begins; a batch comes with the clock reading of its call.\<close>

fun processAll ::
    "(AudioChunk \<Rightarrow> AudioBuffer) \<Rightarrow> (AudioChunk list \<times> real) list \<Rightarrow> LiveMusicHelper
       \<Rightarrow> LiveMusicHelper" where
  "processAll dec [] s = s"
| "processAll dec ((cs, now) # rest) s =
     processAll dec rest (snd (processAudioChunks dec cs now s))"

text \<open>Every batch of the sequence carries a chunk and is processed (the engine is
  loading or playing) while the cursor is nonzero and not behind the clock.\<close>

fun contiguous ::
    "(AudioChunk \<Rightarrow> AudioBuffer) \<Rightarrow> (AudioChunk list \<times> real) list \<Rightarrow> LiveMusicHelper
       \<Rightarrow> bool" where
  "contiguous dec [] s = True"
| "contiguous dec ((cs, now) # rest) s =
     (cs \<noteq> [] \<and> (playbackState s = loading \<or> playbackState s = playing) \<and>
      nextStartTime s \<noteq> 0 \<and> \<not> nextStartTime s < now \<and>
      contiguous dec rest (snd (processAudioChunks dec cs now s)))"

text \<open>The buffers handed to the audio clock, in order, each with its start time.\<close>

fun scheduled :: "Effect list \<Rightarrow> (real \<times> AudioBuffer) list" where
  "scheduled [] = []"
| "scheduled (source_start n t b # es) = (t, b) # scheduled es"
| "scheduled (e # es) = scheduled es"

text \<open>Buffers laid one after the other from a start time, each next start the sum, as the
  code adds, of the start and the duration before it.\<close>

fun timeline :: "real \<Rightarrow> AudioBuffer list \<Rightarrow> (real \<times> AudioBuffer) list" where
  "timeline t [] = []"
| "timeline t (b # bs) = (t, b) # timeline (dadd t (duration b)) bs"

text \<open>What pause() and stop() append to the effects.\<close>

definition pause_effects :: "real \<Rightarrow> LiveMusicHelper \<Rightarrow> Effect list" where
  "pause_effects now s =
     (case session s of None \<Rightarrow> [] | Some h \<Rightarrow> [session_call h session_pause]) @
     [dispatchEvent (playback_state_changed paused),
      graph_call (gain_setValueAtTime (Some 1) now),
      graph_call (gain_linearRampToValueAtTime 0 (dadd now (round_double (1 / 10))))]"

definition stop_effects :: "real \<Rightarrow> LiveMusicHelper \<Rightarrow> Effect list" where
  "stop_effects now s =
     (case session s of None \<Rightarrow> [] | Some h \<Rightarrow> [session_call h session_stop]) @
     [dispatchEvent (playback_state_changed stopped),
      graph_call (gain_setValueAtTime None now),
      graph_call (gain_linearRampToValueAtTime 0 (dadd now (round_double (1 / 10))))]"

text \<open>A small run of the engine, for concrete cases: one prompt of weight 1, a decoder
  whose buffers last one second, and the engine after the user interface stored the
  prompt and play() connected session 1 at clock time 0.\<close>

definition one_prompt :: "(string \<times> Prompt) list" where
  "one_prompt = [(''prompt-0'', \<lparr>promptId = ''prompt-0'', text' = ''Bossa Nova'', weight = 1\<rparr>)]"

definition one_second :: AudioBuffer where
  "one_second = \<lparr>length' = 48000, sampleRate = 48000\<rparr>"

text \<open>A buffer of a tenth of a second: its duration, the double nearest to 1/10, is not
  1/10.\<close>

definition tenth_second :: AudioBuffer where
  "tenth_second = \<lparr>length' = 4800, sampleRate = 48000\<rparr>"

definition a_chunk :: AudioChunk where
  "a_chunk = \<lparr>data = Some ''AAAA''\<rparr>"

definition after_play :: LiveMusicHelper where
  "after_play =
     step (\<lambda>c. one_second) (op_play (resolves 1) True None 0)
       (step (\<lambda>c. one_second) (op_setWeightedPrompts one_prompt None 0) initial)"

text \<open>The prompt lists pushed to the remote session, in order.\<close>

fun pushed :: "Effect list \<Rightarrow> (string \<times> real) list list" where
  "pushed [] = []"
| "pushed (session_call h (session_setWeightedPrompts ws) # es) = ws # pushed es"
| "pushed (e # es) = pushed es"

text \<open>The case of the specification: one prompt of weight 1, one of weight 0, and one
  whose text the service has filtered.\<close>

definition three_prompts :: "(string \<times> Prompt) list" where
  "three_prompts =
     [(''prompt-0'', \<lparr>promptId = ''prompt-0'', text' = ''Bossa Nova'', weight = 1\<rparr>),
      (''prompt-1'', \<lparr>promptId = ''prompt-1'', text' = ''Chillwave'', weight = 0\<rparr>),
      (''prompt-2'', \<lparr>promptId = ''prompt-2'', text' = ''Punk'', weight = 2\<rparr>)]"

section \<open>Facts about rounding\<close>

lemma p2_add: "(2::real) powi (a + b) = 2 powi a * 2 powi b"
  by (simp add: power_int_add)

lemma p2_pos: "0 < (2::real) powi a"
  by (simp add: zero_less_power_int)

lemma p2_mono: "a \<le> b \<Longrightarrow> (2::real) powi a \<le> 2 powi b"
  by (simp add: power_int_increasing)

lemma p2_less: "(2::real) powi a < 2 powi b \<Longrightarrow> a < b"
proof (rule ccontr)
  assume l: "(2::real) powi a < 2 powi b" and "\<not> a < b"
  then have "b \<le> a" by simp
  from p2_mono [OF this] l show False by simp
qed

lemma pow_le_real:
  assumes "(2::int) ^ k \<le> n"
  shows "(2::real) ^ k \<le> real_of_int n"
proof -
  from assms have "real_of_int (2 ^ k) \<le> real_of_int n" by (simp only: of_int_le_iff)
  then show ?thesis by simp
qed

lemma binade_bounds:
  assumes "0 < x"
  shows "2 powi binade x \<le> x \<and> x < 2 powi (binade x + 1)"
proof (cases "1 \<le> x")
  case True
  define n where "n = \<lfloor>x\<rfloor>"
  from True have n: "0 < n" by (simp add: n_def)
  from bitlen_bounds [OF n] have lo: "2 ^ nat (bitlen n - 1) \<le> n" and hi: "n < 2 ^ nat (bitlen n)"
    by simp_all
  from n have b: "1 \<le> bitlen n" using bitlen_eq_zero_iff [of n] bitlen_nonneg [of n] by linarith
  have e: "binade x = bitlen n - 1" using True by (simp add: binade_def n_def)
  have "real_of_int (2 ^ nat (bitlen n - 1)) \<le> real_of_int n" using lo by linarith
  also have "\<dots> \<le> x" by (simp add: n_def)
  finally have 1: "2 powi (bitlen n - 1) \<le> x" using b by (simp add: power_int_def)
  from hi have "n + 1 \<le> 2 ^ nat (bitlen n)" by simp
  then have "real_of_int (n + 1) \<le> real_of_int (2 ^ nat (bitlen n))" by linarith
  moreover have "x < real_of_int (n + 1)" by (simp add: n_def)
  ultimately have "x < 2 ^ nat (bitlen n)" by simp
  then have 2: "x < 2 powi (bitlen n)" using b by (simp add: power_int_def)
  from 1 2 e show ?thesis by simp
next
  case False
  with assms have x1: "x < 1" by simp
  define n where "n = \<lceil>1 / x\<rceil>"
  define m where "m = n - 1"
  from x1 assms have "1 < 1 / x" by simp
  then have "1 < n" unfolding n_def by (simp add: less_ceiling_iff)
  then have m: "0 < m" by (simp add: m_def)
  from bitlen_bounds [OF m] have lo: "2 ^ nat (bitlen m - 1) \<le> m" and hi: "m < 2 ^ nat (bitlen m)"
    by simp_all
  from m have b: "1 \<le> bitlen m" using bitlen_eq_zero_iff [of m] bitlen_nonneg [of m] by linarith
  have e: "binade x = - bitlen m" using False by (simp add: binade_def n_def m_def)
  have "1 / x \<le> real_of_int n" by (simp add: n_def)
  also have "real_of_int n \<le> real_of_int (2 ^ nat (bitlen m))" using hi unfolding m_def by linarith
  finally have "1 / x \<le> 2 ^ nat (bitlen m)" by simp
  then have "1 \<le> 2 ^ nat (bitlen m) * x" using assms by (simp add: field_simps)
  then have 1: "2 powi (- bitlen m) \<le> x" using b
    by (simp add: power_int_def field_simps)
  have "real_of_int m < 1 / x" unfolding m_def n_def by linarith
  with pow_le_real [OF lo] have "2 ^ nat (bitlen m - 1) < 1 / x" by linarith
  then have "2 ^ nat (bitlen m - 1) * x < 1" using assms by (simp add: field_simps)
  then have "x < 1 / 2 ^ nat (bitlen m - 1)" by (simp add: field_simps)
  moreover have "(2::real) powi (- bitlen m + 1) = 1 / 2 ^ nat (bitlen m - 1)"
    using b by (simp add: power_int_def field_simps nat_diff_distrib)
  ultimately have 2: "x < 2 powi (- bitlen m + 1)" by simp
  from 1 2 e show ?thesis by simp
qed

lemma binade_unique:
  assumes "0 < x" "2 powi e \<le> x" "x < 2 powi (e + 1)"
  shows "binade x = e"
proof -
  from binade_bounds [OF assms(1)] have lo: "2 powi binade x \<le> x" and hi: "x < 2 powi (binade x + 1)"
    by simp_all
  from assms(2) hi have "(2::real) powi e < 2 powi (binade x + 1)" by linarith
  from p2_less [OF this] have 1: "e \<le> binade x" by simp
  from lo assms(3) have "(2::real) powi binade x < 2 powi (e + 1)" by linarith
  from p2_less [OF this] have 2: "binade x \<le> e" by simp
  from 1 2 show ?thesis by simp
qed

lemma binade_mono: "0 < x \<Longrightarrow> x \<le> y \<Longrightarrow> binade x \<le> binade y"
proof -
  assume x: "0 < x" and xy: "x \<le> y"
  then have y: "0 < y" by simp
  from binade_bounds [OF x] binade_bounds [OF y] xy
  have "(2::real) powi binade x < 2 powi (binade y + 1)" by linarith
  from p2_less [OF this] show ?thesis by simp
qed


lemma rne_of_int: "rne (of_int k) = k"
  by (simp add: rne_def)

lemma rne_bounds: "\<lfloor>y\<rfloor> \<le> rne y \<and> rne y \<le> \<lfloor>y\<rfloor> + 1"
  by (simp add: rne_def Let_def)

lemma rne_mono:
  assumes "x \<le> y"
  shows "rne x \<le> rne y"
proof (cases "\<lfloor>x\<rfloor> = \<lfloor>y\<rfloor>")
  case True
  with assms show ?thesis by (auto simp: rne_def Let_def)
next
  case False
  from assms have "\<lfloor>x\<rfloor> \<le> \<lfloor>y\<rfloor>" by (rule floor_mono)
  with False have "\<lfloor>x\<rfloor> + 1 \<le> \<lfloor>y\<rfloor>" by simp
  with rne_bounds [of x] rne_bounds [of y] show ?thesis by linarith
qed

lemma rne_error: "\<bar>real_of_int (rne y) - y\<bar> \<le> 1 / 2"
proof -
  define f where "f = \<lfloor>y\<rfloor>"
  have b: "real_of_int f \<le> y" "y < real_of_int f + 1" unfolding f_def by linarith+
  have "\<bar>real_of_int (if y - of_int f < 1 / 2 then f else if 1 / 2 < y - of_int f then f + 1
      else if even f then f else f + 1) - y\<bar> \<le> 1 / 2"
    using b by (auto simp: abs_if)
  then show ?thesis by (simp add: rne_def Let_def f_def)
qed

lemma ulp_pos: "0 < ulp x"
  by (simp add: ulp_def p2_pos)

lemma round_double_pos:
  "0 < x \<Longrightarrow> round_double x = ulp x * of_int (rne (x / ulp x))"
  by (simp add: round_double_def)

lemma round_double_minus: "round_double (- x) = - round_double x"
  by (simp add: round_double_def ulp_def sgn_if)

lemma round_double_0: "round_double 0 = 0"
  by (simp add: round_double_def)

lemma round_double_nonneg:
  assumes "0 \<le> x"
  shows "0 \<le> round_double x"
proof (cases "x = 0")
  case True
  then show ?thesis by (simp add: round_double_0)
next
  case False
  with assms have x: "0 < x" by simp
  have "0 \<le> x / ulp x" using x ulp_pos [of x] by simp
  from rne_mono [OF this] have "0 \<le> rne (x / ulp x)" using rne_of_int [of 0] by simp
  then show ?thesis using ulp_pos [of x] by (simp add: round_double_pos [OF x])
qed

text \<open>The rounding error is at most half a unit in the last place.\<close>

lemma round_double_error: "\<bar>round_double x - x\<bar> \<le> ulp x / 2"
proof -
  have pos: "\<bar>round_double x - x\<bar> \<le> ulp x / 2" if x: "0 < x" for x
  proof -
    have "round_double x - x = ulp x * (of_int (rne (x / ulp x)) - x / ulp x)"
      using ulp_pos [of x] by (simp add: round_double_pos [OF x] field_simps)
    then have "\<bar>round_double x - x\<bar> = ulp x * \<bar>of_int (rne (x / ulp x)) - x / ulp x\<bar>"
      using ulp_pos [of x] by (simp add: abs_mult)
    also have "\<dots> \<le> ulp x * (1 / 2)"
      using rne_error [of "x / ulp x"] ulp_pos [of x] by (intro mult_left_mono) simp_all
    finally show ?thesis by simp
  qed
  consider "x = 0" | "0 < x" | "x < 0" by linarith
  then show ?thesis
  proof cases
    case 1
    then show ?thesis using ulp_pos [of 0] by (simp add: round_double_0)
  next
    case 2
    then show ?thesis by (rule pos)
  next
    case 3
    then have "0 < - x" by simp
    from pos [OF this] have "\<bar>- round_double x + x\<bar> \<le> ulp (- x) / 2"
      by (simp add: round_double_minus)
    moreover have "\<bar>- round_double x + x\<bar> = \<bar>round_double x - x\<bar>" by linarith
    moreover have "ulp (- x) = ulp x" by (simp add: ulp_def)
    ultimately show ?thesis by simp
  qed
qed


lemma ulp_of_pos: "0 < x \<Longrightarrow> ulp x = 2 powi (max (binade x) (- 1022) - 52)"
  by (simp add: ulp_def)

lemma p2_split: "(2::real) powi e = 2 powi (e - int n) * 2 ^ n"
proof -
  have "(2::real) powi e = 2 powi ((e - int n) + int n)" by simp
  also have "\<dots> = 2 powi (e - int n) * 2 powi (int n)" by (rule p2_add)
  finally show ?thesis by (simp only: power_int_of_nat)
qed

lemma real_le_pow:
  assumes "n \<le> (2::int) ^ k"
  shows "real_of_int n \<le> (2::real) ^ k"
proof -
  from assms have "real_of_int n \<le> real_of_int (2 ^ k)" by (simp only: of_int_le_iff)
  then show ?thesis by simp
qed

lemma below_next_binade:
  assumes "0 < x"
  shows "x < 2 powi (max (binade x) (- 1022) + 1)"
proof -
  from binade_bounds [OF assms] have "x < 2 powi (binade x + 1)" by simp
  also have "\<dots> \<le> 2 powi (max (binade x) (- 1022) + 1)" by (rule p2_mono) simp
  finally show ?thesis .
qed

lemma round_double_upper:
  assumes "0 < x"
  shows "round_double x \<le> 2 powi (max (binade x) (- 1022) + 1)"
proof -
  define E where "E = max (binade x) (- 1022)"
  have u: "ulp x = 2 powi (E - 52)" by (simp add: ulp_of_pos [OF assms] E_def)
  have top: "(2::real) powi (E + 1) = 2 powi (E - 52) * 2 ^ 53"
    using p2_split [of "E + 1" 53] by simp
  from below_next_binade [OF assms] have "x < 2 powi (E + 1)" by (simp add: E_def)
  then have "x < 2 powi (E - 52) * 2 ^ 53" by (simp only: top)
  then have "x / ulp x \<le> real_of_int (2 ^ 53)"
    using p2_pos [of "E - 52"] by (simp add: u field_simps)
  from rne_mono [OF this] have "rne (x / ulp x) \<le> 2 ^ 53" by (simp only: rne_of_int)
  then have "real_of_int (rne (x / ulp x)) \<le> 2 ^ 53" by (rule real_le_pow)
  then have "ulp x * real_of_int (rne (x / ulp x)) \<le> ulp x * 2 ^ 53"
    using ulp_pos [of x] by (intro mult_left_mono) simp_all
  then have "round_double x \<le> 2 powi (E + 1)"
    by (simp only: round_double_pos [OF assms] u top)
  then show ?thesis by (simp add: E_def)
qed

lemma round_double_lower:
  assumes "0 < x" "- 1022 \<le> binade x"
  shows "2 powi binade x \<le> round_double x"
proof -
  from assms(2) have u: "ulp x = 2 powi (binade x - 52)" by (simp add: ulp_of_pos [OF assms(1)])
  from binade_bounds [OF assms(1)] have "2 powi (binade x - 52) * 2 ^ 52 \<le> x"
    using p2_split [of "binade x" 52] by simp
  then have "real_of_int (2 ^ 52) \<le> x / ulp x"
    using p2_pos [of "binade x - 52"] by (simp add: u field_simps)
  from rne_mono [OF this] have "2 ^ 52 \<le> rne (x / ulp x)" by (simp only: rne_of_int)
  then have "2 ^ 52 \<le> real_of_int (rne (x / ulp x))" by (rule pow_le_real)
  then have "ulp x * 2 ^ 52 \<le> ulp x * real_of_int (rne (x / ulp x))"
    using ulp_pos [of x] by (intro mult_left_mono) simp_all
  then show ?thesis using p2_split [of "binade x" 52] by (simp add: round_double_pos [OF assms(1)] u)
qed

lemma round_double_mono_pos:
  assumes "0 < x" "x \<le> y"
  shows "round_double x \<le> round_double y"
proof -
  from assms have y: "0 < y" by simp
  define Ex where "Ex = max (binade x) (- 1022)"
  define Ey where "Ey = max (binade y) (- 1022)"
  from binade_mono [OF assms] have le: "Ex \<le> Ey" by (simp add: Ex_def Ey_def)
  show ?thesis
  proof (cases "Ex = Ey")
    case True
    then have u: "ulp x = ulp y" by (simp add: ulp_of_pos assms(1) y Ex_def Ey_def)
    have "x / ulp y \<le> y / ulp y" using assms(2) ulp_pos [of y] by (simp add: divide_right_mono)
    from rne_mono [OF this] have "real_of_int (rne (x / ulp y)) \<le> real_of_int (rne (y / ulp y))"
      by linarith
    then have "ulp y * real_of_int (rne (x / ulp y)) \<le> ulp y * real_of_int (rne (y / ulp y))"
      using ulp_pos [of y] by (intro mult_left_mono) simp_all
    then show ?thesis by (simp add: round_double_pos assms(1) y u)
  next
    case False
    with le have lt: "Ex + 1 \<le> Ey" by simp
    then have by1: "- 1022 \<le> binade y" and by2: "Ey = binade y" by (simp_all add: Ex_def Ey_def)
    from round_double_upper [OF assms(1)] have "round_double x \<le> 2 powi (Ex + 1)"
      by (simp add: Ex_def)
    also have "\<dots> \<le> 2 powi Ey" using lt by (rule p2_mono)
    also have "\<dots> \<le> round_double y" using round_double_lower [OF y by1] by (simp add: by2)
    finally show ?thesis .
  qed
qed

lemma round_double_mono:
  assumes "x \<le> y"
  shows "round_double x \<le> round_double y"
proof -
  consider "0 < x" | "x \<le> 0" "0 \<le> y" | "y < 0" by linarith
  then show ?thesis
  proof cases
    case 1
    then show ?thesis using assms by (rule round_double_mono_pos)
  next
    case 2
    from 2(1) have "0 \<le> round_double (- x)" by (intro round_double_nonneg) simp
    then have "round_double x \<le> 0" by (simp add: round_double_minus)
    with round_double_nonneg [OF 2(2)] show ?thesis by linarith
  next
    case 3
    with assms have "0 < - y" "- y \<le> - x" by simp_all
    from round_double_mono_pos [OF this] show ?thesis by (simp add: round_double_minus)
  qed
qed

lemma round_double_idem_pos:
  assumes "0 < x"
  shows "round_double (round_double x) = round_double x"
proof -
  define E where "E = max (binade x) (- 1022)"
  define k where "k = rne (x / ulp x)"
  define z where "z = round_double x"
  have u: "ulp x = 2 powi (E - 52)" by (simp add: ulp_of_pos [OF assms] E_def)
  have z: "z = 2 powi (E - 52) * of_int k" by (simp add: z_def k_def round_double_pos [OF assms] u)
  have E: "- 1022 \<le> E" by (simp add: E_def)
  have top: "z \<le> 2 powi (E + 1)" using round_double_upper [OF assms] by (simp add: z_def E_def)
  have nn: "0 \<le> z" unfolding z_def using assms by (intro round_double_nonneg) simp
  consider "z = 0" | "z = 2 powi (E + 1)" | "0 < z" "z < 2 powi (E + 1)" using top nn by linarith
  then have "round_double z = z"
  proof cases
    case 1
    then show ?thesis by (simp add: round_double_0)
  next
    case 2
    have zp: "0 < z" by (simp add: 2 p2_pos)
    have "z < 2 powi (E + 1 + 1)" unfolding 2 by (rule power_int_strict_increasing) simp_all
    with 2 have b: "binade z = E + 1" by (intro binade_unique [OF zp]) simp_all
    define w where "w = ulp z"
    have uz: "w = 2 powi (E + 1 - 52)" using E by (simp add: w_def ulp_of_pos [OF zp] b)
    have w: "0 < w" by (simp add: w_def ulp_pos)
    have sp: "(2::real) powi (E + 1) = 2 powi (E + 1 - 52) * 2 ^ 52"
      using p2_split [of "E + 1" 52] by simp
    have zz: "z = w * 2 ^ 52" by (simp only: 2 sp uz)
    have "z / w = real_of_int (2 ^ 52)" using w by (simp add: zz)
    then have "rne (z / w) = 2 ^ 52" by (simp only: rne_of_int)
    then have "w * real_of_int (rne (z / w)) = z" by (simp add: zz)
    then show ?thesis by (simp only: round_double_pos [OF zp] w_def)
  next
    case 3
    define g where "g = max (binade z) (- 1022)"
    from binade_bounds [OF 3(1)] 3(2) have "(2::real) powi binade z < 2 powi (E + 1)" by linarith
    from p2_less [OF this] E have g: "g \<le> E" by (simp add: g_def)
    define w where "w = ulp z"
    have uz: "w = 2 powi (g - 52)" by (simp add: w_def ulp_of_pos [OF 3(1)] g_def)
    have w: "0 < w" by (simp add: w_def ulp_pos)
    have "(2::real) powi (E - 52) = 2 powi ((g - 52) + (E - g))" by simp
    also have "\<dots> = 2 powi (g - 52) * 2 powi (E - g)" by (rule p2_add)
    also have "(2::real) powi (E - g) = 2 ^ nat (E - g)" using g by (simp add: power_int_def)
    finally have split: "(2::real) powi (E - 52) = w * 2 ^ nat (E - g)" by (simp only: uz)
    have zz: "z = w * real_of_int (2 ^ nat (E - g) * k)" by (simp add: z split)
    have "z / w = real_of_int (2 ^ nat (E - g) * k)" using w by (simp add: zz)
    then have "rne (z / w) = 2 ^ nat (E - g) * k" by (simp only: rne_of_int)
    then have "w * real_of_int (rne (z / w)) = z" by (simp only: zz)
    then show ?thesis by (simp only: round_double_pos [OF 3(1)] w_def)
  qed
  then show ?thesis by (simp add: z_def)
qed

lemma round_double_idem: "round_double (round_double x) = round_double x"
proof -
  consider "x = 0" | "0 < x" | "x < 0" by linarith
  then show ?thesis
  proof cases
    case 1
    then show ?thesis by (simp add: round_double_0)
  next
    case 2
    then show ?thesis by (rule round_double_idem_pos)
  next
    case 3
    then have "0 < - x" by simp
    from round_double_idem_pos [OF this] show ?thesis by (simp add: round_double_minus)
  qed
qed

lemma is_double_round: "is_double (round_double x)"
  by (simp add: is_double_def round_double_idem)

lemma is_double_dadd: "is_double (dadd x y)"
  by (simp add: dadd_def is_double_round)

text \<open>Adding a non-negative number to a double never gives less than the double.\<close>

lemma dadd_ge:
  assumes "is_double t" "0 \<le> d"
  shows "t \<le> dadd t d"
proof -
  from assms(2) have "t \<le> t + d" by simp
  from round_double_mono [OF this] assms(1) show ?thesis by (simp add: dadd_def is_double_def)
qed

lemma dadd_error: "\<bar>dadd x y - (x + y)\<bar> \<le> ulp (x + y) / 2"
  unfolding dadd_def by (rule round_double_error)

lemma round_double_1: "round_double 1 = 1"
  by code_simp

lemma round_double_tenth: "round_double (1 / 10) = 3602879701896397 / 36028797018963968"
  by code_simp

lemma is_double_small: "is_double 0" "is_double 1" "is_double 2" "is_double 3"
  unfolding is_double_def by code_simp+

lemma dadd_small:
  "dadd 0 2 = 2" "dadd 1 2 = 3" "dadd 2 1 = 3" "dadd 3 1 = 4" "dadd 4 1 = 5"
  by code_simp+

lemma dmul_bufferTime: "dmul bufferTime 1000 = 2000"
  unfolding bufferTime_def by code_simp

lemma dadd_tenths:
  "dadd 2 (3602879701896397 / 36028797018963968) = 4728779608739021 / 2251799813685248"
  "dadd (4728779608739021 / 2251799813685248) (3602879701896397 / 36028797018963968) =
     2476979795053773 / 1125899906842624"
  "dadd (2476979795053773 / 1125899906842624) (3602879701896397 / 36028797018963968) =
     5179139571476071 / 2251799813685248"
  by code_simp+

section \<open>Basic facts about the steps\<close>

lemma pause_eq:
  "pause now s = s\<lparr>playbackState := paused, nextStartTime := 0, outputNode := Suc (outputNode s),
     effects := effects s @ pause_effects now s\<rparr>"
  by (cases "session s")
     (simp_all add: pause_def pause_effects_def call_session_if_any_def setPlaybackState_def emit_def)

lemma stop_eq:
  "stop now s = s\<lparr>playbackState := stopped, nextStartTime := 0, session := None,
     sessionPromise := None, effects := effects s @ stop_effects now s\<rparr>"
  by (cases "session s")
     (simp_all add: stop_def stop_effects_def call_session_if_any_def setPlaybackState_def emit_def)

lemma resume_underrun:
  "nextStartTime s \<noteq> 0 \<Longrightarrow> nextStartTime s < now \<Longrightarrow>
   processAudioChunks_resume b now s =
     s\<lparr>playbackState := loading, nextStartTime := 0,
       effects := effects s @ [dispatchEvent (playback_state_changed loading)]\<rparr>"
  by (simp add: processAudioChunks_resume_def prime_cursor_def schedule_buffer_def
      setPlaybackState_def emit_def)

lemma resume_contiguous:
  "nextStartTime s \<noteq> 0 \<Longrightarrow> \<not> nextStartTime s < now \<Longrightarrow>
   processAudioChunks_resume b now s =
     s\<lparr>nextStartTime := dadd (nextStartTime s) (duration b),
       effects := effects s @ [source_start (outputNode s) (nextStartTime s) b]\<rparr>"
  by (simp add: processAudioChunks_resume_def prime_cursor_def schedule_buffer_def emit_def)

text \<open>A clock reading is a double: two seconds later is not before it.\<close>

lemma resume_first:
  assumes "nextStartTime s = 0" "is_double now"
  shows "processAudioChunks_resume b now s =
     s\<lparr>nextStartTime := dadd (dadd now 2) (duration b),
       timers := timers s @ [(flip_to_playing, 2000)],
       effects := effects s @ [source_start (outputNode s) (dadd now 2) b]\<rparr>"
proof -
  from dadd_ge [OF assms(2), of 2] have "\<not> dadd now 2 < now" by simp
  with assms(1) show ?thesis
    by (simp add: processAudioChunks_resume_def prime_cursor_def schedule_buffer_def emit_def
        setTimeout_def dmul_bufferTime) (simp add: bufferTime_def)
qed

lemma processAudioChunks_active:
  "playbackState s = loading \<or> playbackState s = playing \<Longrightarrow>
   processAudioChunks dec (c # cs) now s = (None, processAudioChunks_resume (dec c) now s)"
  by (auto simp: processAudioChunks_def processAudioChunks_entry_def)

lemma duration_nonneg: "0 \<le> duration b"
  unfolding duration_def ddiv_def by (rule round_double_nonneg) simp

lemma duration_one_second: "duration one_second = 1"
  by (simp add: duration_def one_second_def ddiv_def round_double_1)

lemma duration_tenth_second: "duration tenth_second = 3602879701896397 / 36028797018963968"
  using round_double_tenth by (simp add: duration_def tenth_second_def ddiv_def)

lemma after_play_eq:
  "after_play =
     \<lparr>session = Some 1, sessionPromise = Some (resolves 1), connectionError = True,
      filteredPrompts = {}, nextStartTime = 0, outputNode = 0, extraDestination = False,
      playbackState = loading, prompts = one_prompt, timers = [],
      effects =
        [dispatchEvent (playback_state_changed loading),
         session_call 1 (session_setWeightedPrompts [(''Bossa Nova'', 1)]),
         graph_call context_resume, session_call 1 session_play,
         graph_call master_connect_destination,
         graph_call master_connect_streamDestination,
         graph_call (gain_setValueAtTime (Some 0) 0),
         graph_call (gain_linearRampToValueAtTime 1 (dadd 0 (round_double (1 / 10))))]\<rparr>"
  by (simp add: after_play_def one_prompt_def initial_def play_def setWeightedPrompts_def
      activePrompts_def getSession_def setPlaybackState_def emit_def Let_def)

section \<open>Gapless scheduling\<close>

lemma scheduled_append: "scheduled (xs @ ys) = scheduled xs @ scheduled ys"
  by (induction xs rule: scheduled.induct) auto

lemma contiguous_step:
  assumes "cs \<noteq> []" "playbackState s = loading \<or> playbackState s = playing"
    "nextStartTime s \<noteq> 0" "\<not> nextStartTime s < now"
  shows "processAudioChunks dec cs now s =
     (None, s\<lparr>nextStartTime := dadd (nextStartTime s) (duration (dec (hd cs))),
       effects := effects s @ [source_start (outputNode s) (nextStartTime s) (dec (hd cs))]\<rparr>)"
proof -
  from assms(1) obtain c rest where "cs = c # rest" by (cases cs) auto
  with assms show ?thesis by (simp add: processAudioChunks_active resume_contiguous)
qed

lemma contiguous_run:
  "contiguous dec batches s \<Longrightarrow>
   scheduled (effects (processAll dec batches s)) =
     scheduled (effects s) @
       timeline (nextStartTime s) (map (\<lambda>(cs, now). dec (hd cs)) batches) \<and>
   nextStartTime (processAll dec batches s) =
     foldl (\<lambda>t b. dadd t (duration b)) (nextStartTime s)
       (map (\<lambda>(cs, now). dec (hd cs)) batches)"
proof (induction batches arbitrary: s)
  case Nil
  then show ?case by simp
next
  case (Cons x batches)
  obtain cs now where x: "x = (cs, now)" by (cases x)
  from Cons.prems x have st: "cs \<noteq> []" "playbackState s = loading \<or> playbackState s = playing"
    "nextStartTime s \<noteq> 0" "\<not> nextStartTime s < now" by auto
  note one = contiguous_step [OF st, of dec]
  from Cons.prems x have "contiguous dec batches (snd (processAudioChunks dec cs now s))" by simp
  from Cons.IH [OF this] show ?case
    by (simp add: x one scheduled_append)
qed

lemma timeline_snd: "map snd (timeline t bs) = bs"
  by (induction bs arbitrary: t) auto

lemma timeline_hd: "bs \<noteq> [] \<Longrightarrow> fst (hd (timeline t bs)) = t"
  by (cases bs) auto

lemma timeline_Nil: "timeline t bs = [] \<longleftrightarrow> bs = []"
  by (cases bs) auto

lemma timeline_last:
  "bs \<noteq> [] \<Longrightarrow>
   foldl (\<lambda>t b. dadd t (duration b)) t bs =
     dadd (fst (last (timeline t bs))) (duration (snd (last (timeline t bs))))"
proof (induction bs arbitrary: t)
  case Nil
  then show ?case by simp
next
  case (Cons b bs)
  show ?case
  proof (cases "bs = []")
    case True
    then show ?thesis by simp
  next
    case False
    with Cons.IH [of "dadd t (duration b)"] show ?thesis by (simp add: timeline_Nil)
  qed
qed

lemma timeline_adjacent:
  "Suc i < length (timeline t bs) \<Longrightarrow>
   fst (timeline t bs ! Suc i) =
     dadd (fst (timeline t bs ! i)) (duration (snd (timeline t bs ! i)))"
proof (induction bs arbitrary: t i)
  case Nil
  then show ?case by simp
next
  case (Cons b bs)
  show ?case
  proof (cases i)
    case 0
    with Cons.prems show ?thesis by (cases bs) auto
  next
    case (Suc j)
    with Cons.prems Cons.IH [of j "dadd t (duration b)"] show ?thesis by simp
  qed
qed

lemma timeline_lower: "is_double t \<Longrightarrow> (u, b) \<in> set (timeline t bs) \<Longrightarrow> t \<le> u"
proof (induction bs arbitrary: t)
  case Nil
  then show ?case by simp
next
  case (Cons a bs)
  from Cons.prems(2) have "u = t \<or> (u, b) \<in> set (timeline (dadd t (duration a)) bs)" by auto
  then show ?case
  proof
    assume "u = t"
    then show ?thesis by simp
  next
    assume "(u, b) \<in> set (timeline (dadd t (duration a)) bs)"
    from Cons.IH [OF is_double_dadd this] dadd_ge [OF Cons.prems(1) duration_nonneg [of a]]
    show ?thesis by linarith
  qed
qed

lemma timeline_sorted: "is_double t \<Longrightarrow> sorted (map fst (timeline t bs))"
proof (induction bs arbitrary: t)
  case Nil
  then show ?case by simp
next
  case (Cons a bs)
  have "\<forall>u \<in> set (map fst (timeline (dadd t (duration a)) bs)). t \<le> u"
  proof
    fix u
    assume "u \<in> set (map fst (timeline (dadd t (duration a)) bs))"
    then obtain b where "(u, b) \<in> set (timeline (dadd t (duration a)) bs)" by auto
    from timeline_lower [OF is_double_dadd this] dadd_ge [OF Cons.prems duration_nonneg [of a]]
    show "t \<le> u" by linarith
  qed
  with Cons.IH [OF is_double_dadd, of t "duration a"] show ?case by simp
qed

text \<open>A run with buffers of a tenth of a second: the first chunk primes the cursor at clock
  time 0, two more chunks come at clock times 1/8 and 1/4.\<close>

lemma tenth_first:
  "snd (processAudioChunks (\<lambda>c. tenth_second) [a_chunk] 0 after_play) =
     after_play\<lparr>nextStartTime := 4728779608739021 / 2251799813685248,
       timers := [(flip_to_playing, 2000)],
       effects := effects after_play @ [source_start 0 2 tenth_second]\<rparr>"
  by (simp add: processAudioChunks_active resume_first is_double_small dadd_small
      duration_tenth_second dadd_tenths after_play_eq)

lemma tenth_run:
  "processAll (\<lambda>c. tenth_second) [([a_chunk], 1 / 8), ([a_chunk], 1 / 4)]
     (snd (processAudioChunks (\<lambda>c. tenth_second) [a_chunk] 0 after_play)) =
     after_play\<lparr>nextStartTime := 5179139571476071 / 2251799813685248,
       timers := [(flip_to_playing, 2000)],
       effects := effects after_play @
         [source_start 0 2 tenth_second,
          source_start 0 (4728779608739021 / 2251799813685248) tenth_second,
          source_start 0 (2476979795053773 / 1125899906842624) tenth_second]\<rparr>"
  unfolding tenth_first
  by (simp add: processAudioChunks_active resume_contiguous duration_tenth_second dadd_tenths
      after_play_eq)

lemma tenth_contiguous:
  "contiguous (\<lambda>c. tenth_second) [([a_chunk], 1 / 8), ([a_chunk], 1 / 4)]
     (snd (processAudioChunks (\<lambda>c. tenth_second) [a_chunk] 0 after_play))"
  unfolding tenth_first
  by (simp add: processAudioChunks_active resume_contiguous duration_tenth_second dadd_tenths
      after_play_eq)

text \<open>
  Claim C1 as it is written, with exact sums, fails on the code. In the run above both later
  chunks are processed while the cursor is nonzero and not behind the clock. The buffers
  start at 2, at 2.1 and at 2.2 as doubles; no start is the start before it plus the
  duration before it, and the cursor does not advance by the duration: each sum is rounded.
\<close>

theorem exact_sum_counterexample:
  "contiguous (\<lambda>c. tenth_second) [([a_chunk], 1 / 8), ([a_chunk], 1 / 4)]
     (snd (processAudioChunks (\<lambda>c. tenth_second) [a_chunk] 0 after_play)) \<and>
   scheduled (effects (processAll (\<lambda>c. tenth_second) [([a_chunk], 1 / 8), ([a_chunk], 1 / 4)]
       (snd (processAudioChunks (\<lambda>c. tenth_second) [a_chunk] 0 after_play)))) =
     [(2, tenth_second),
      (4728779608739021 / 2251799813685248, tenth_second),
      (2476979795053773 / 1125899906842624, tenth_second)] \<and>
   4728779608739021 / 2251799813685248 \<noteq> 2 + duration tenth_second \<and>
   2476979795053773 / 1125899906842624 \<noteq>
     4728779608739021 / 2251799813685248 + duration tenth_second \<and>
   nextStartTime (processAll (\<lambda>c. tenth_second) [([a_chunk], 1 / 8)]
       (snd (processAudioChunks (\<lambda>c. tenth_second) [a_chunk] 0 after_play))) \<noteq>
     nextStartTime (snd (processAudioChunks (\<lambda>c. tenth_second) [a_chunk] 0 after_play)) +
       duration tenth_second"
proof -
  have "nextStartTime (processAll (\<lambda>c. tenth_second) [([a_chunk], 1 / 8)]
       (snd (processAudioChunks (\<lambda>c. tenth_second) [a_chunk] 0 after_play))) =
     2476979795053773 / 1125899906842624"
    unfolding tenth_first
    by (simp add: processAudioChunks_active resume_contiguous duration_tenth_second dadd_tenths
        after_play_eq)
  moreover have "nextStartTime (snd (processAudioChunks (\<lambda>c. tenth_second) [a_chunk] 0 after_play))
      = 4728779608739021 / 2251799813685248"
    unfolding tenth_first by simp
  moreover have "scheduled (effects (processAll (\<lambda>c. tenth_second)
       [([a_chunk], 1 / 8), ([a_chunk], 1 / 4)]
       (snd (processAudioChunks (\<lambda>c. tenth_second) [a_chunk] 0 after_play)))) =
     [(2, tenth_second),
      (4728779608739021 / 2251799813685248, tenth_second),
      (2476979795053773 / 1125899906842624, tenth_second)]"
    unfolding tenth_run by (simp add: after_play_eq)
  ultimately show ?thesis
    using tenth_contiguous by (simp add: duration_tenth_second)
qed

text \<open>
  Claim C1, amended. Take any sequence of chunk batches each processed while the schedule
  cursor, a double, is nonzero and not behind the audio clock. Every one of their buffers is
  scheduled, in arrival order and nothing else; the first starts exactly at the cursor;
  each next one starts at the sum, as doubles are added, of the previous start and the
  previous buffer's duration, which is within half a unit in the last place of their exact
  sum; the start times are non-decreasing; and the cursor ends at the sum, as doubles are
  added, of the last start and the last duration. (A sequence of one batch is the single
  step: the buffer starts at the cursor and the cursor becomes the rounded sum of itself
  and the duration.)
\<close>

theorem gapless_timeline_up_to_rounding:
  assumes "contiguous dec batches s" and "is_double (nextStartTime s)"
  shows "let s' = processAll dec batches s;
             new = drop (length (scheduled (effects s))) (scheduled (effects s'))
         in scheduled (effects s') = scheduled (effects s) @ new \<and>
            map snd new = map (\<lambda>(cs, now). dec (hd cs)) batches \<and>
            (batches \<noteq> [] \<longrightarrow> fst (hd new) = nextStartTime s) \<and>
            (\<forall>i. Suc i < length new \<longrightarrow>
               fst (new ! Suc i) = dadd (fst (new ! i)) (duration (snd (new ! i))) \<and>
               \<bar>fst (new ! Suc i) - (fst (new ! i) + duration (snd (new ! i)))\<bar>
                 \<le> ulp (fst (new ! i) + duration (snd (new ! i))) / 2) \<and>
            sorted (map fst new) \<and>
            nextStartTime s' =
              (if new = [] then nextStartTime s
               else dadd (fst (last new)) (duration (snd (last new))))"
proof -
  let ?bs = "map (\<lambda>(cs, now). dec (hd cs)) batches"
  let ?new = "timeline (nextStartTime s) ?bs"
  from contiguous_run [OF assms(1)]
  have run: "scheduled (effects (processAll dec batches s)) = scheduled (effects s) @ ?new"
    and cur: "nextStartTime (processAll dec batches s) =
      foldl (\<lambda>t b. dadd t (duration b)) (nextStartTime s) ?bs"
    by simp_all
  have new: "drop (length (scheduled (effects s))) (scheduled (effects (processAll dec batches s)))
      = ?new"
    by (simp add: run)
  have "batches \<noteq> [] \<longrightarrow> fst (hd ?new) = nextStartTime s"
    by (simp add: timeline_hd)
  moreover have "\<forall>i. Suc i < length ?new \<longrightarrow>
      fst (?new ! Suc i) = dadd (fst (?new ! i)) (duration (snd (?new ! i))) \<and>
      \<bar>fst (?new ! Suc i) - (fst (?new ! i) + duration (snd (?new ! i)))\<bar>
        \<le> ulp (fst (?new ! i) + duration (snd (?new ! i))) / 2"
    using dadd_error by (simp add: timeline_adjacent)
  moreover have "nextStartTime (processAll dec batches s) =
      (if ?new = [] then nextStartTime s
       else dadd (fst (last ?new)) (duration (snd (last ?new))))"
  proof (cases "?bs = []")
    case True
    then show ?thesis by (simp add: cur)
  next
    case False
    from timeline_last [OF this] False show ?thesis by (simp add: cur timeline_Nil)
  qed
  moreover have "sorted (map fst ?new)"
    using assms(2) by (rule timeline_sorted)
  ultimately show ?thesis
    unfolding Let_def new using run timeline_snd by blast
qed

theorem gapless_timeline_up_to_rounding_witness:
  "contiguous (\<lambda>c. tenth_second) [([a_chunk], 1 / 8), ([a_chunk], 1 / 4)]
     (snd (processAudioChunks (\<lambda>c. tenth_second) [a_chunk] 0 after_play)) \<and>
   is_double (nextStartTime (snd (processAudioChunks (\<lambda>c. tenth_second) [a_chunk] 0 after_play))) \<and>
   scheduled (effects (processAll (\<lambda>c. tenth_second) [([a_chunk], 1 / 8), ([a_chunk], 1 / 4)]
       (snd (processAudioChunks (\<lambda>c. tenth_second) [a_chunk] 0 after_play)))) =
     [(2, tenth_second),
      (dadd 2 (duration tenth_second), tenth_second),
      (dadd (dadd 2 (duration tenth_second)) (duration tenth_second), tenth_second)] \<and>
   nextStartTime (processAll (\<lambda>c. tenth_second) [([a_chunk], 1 / 8), ([a_chunk], 1 / 4)]
       (snd (processAudioChunks (\<lambda>c. tenth_second) [a_chunk] 0 after_play))) =
     5179139571476071 / 2251799813685248"
proof -
  let ?s1 = "snd (processAudioChunks (\<lambda>c. tenth_second) [a_chunk] 0 after_play)"
  have d: "is_double (nextStartTime ?s1)"
    unfolding tenth_first using is_double_dadd [of 2 "3602879701896397 / 36028797018963968"]
    by (simp add: dadd_tenths)
  from gapless_timeline_up_to_rounding [OF tenth_contiguous d] tenth_contiguous d show ?thesis
    unfolding tenth_run by (simp add: after_play_eq duration_tenth_second dadd_tenths)
qed

section \<open>The first buffer, the underrun, and the guard\<close>

lemma playbackState_pause: "playbackState (pause now s) = paused"
  by (simp add: pause_eq)

lemma playbackState_stop: "playbackState (stop now s) = stopped"
  by (simp add: stop_eq)

lemma playing_resume:
  "playbackState (processAudioChunks_resume b now s) = playing \<Longrightarrow> playbackState s = playing"
  by (auto simp add: processAudioChunks_resume_def prime_cursor_def schedule_buffer_def emit_def
      setTimeout_def setPlaybackState_def split: if_splits)

lemma playing_processAudioChunks:
  "playbackState (snd (processAudioChunks dec cs now s)) = playing \<Longrightarrow> playbackState s = playing"
  by (auto simp add: processAudioChunks_def dest: playing_resume split: Entry.splits)

lemma playing_setWeightedPrompts:
  "playbackState (setWeightedPrompts ps r now s) = playing \<Longrightarrow> playbackState s = playing"
  by (auto simp add: setWeightedPrompts_def Let_def playbackState_pause emit_def
      split: if_splits option.splits)

lemma playing_setPitchBend:
  "playbackState (setPitchBend v r s) = playing \<Longrightarrow> playbackState s = playing"
  by (auto simp add: setPitchBend_def Let_def emit_def split: if_splits option.splits)

lemma not_playing_play: "playbackState (snd (play conn runs r now s)) \<noteq> playing"
  by (auto simp add: play_def Let_def emit_def getSession_def setPlaybackState_def
      setWeightedPrompts_def playbackState_pause
      split: if_splits option.splits Promise.splits)

lemma not_playing_playPause: "playbackState (snd (playPause conn runs r now s)) \<noteq> playing"
  by (auto simp add: playPause_def not_playing_play playbackState_pause playbackState_stop
      split: PlaybackState.splits)

lemma playing_onmessage:
  "playbackState (snd (onmessage dec e now s)) = playing \<Longrightarrow> playbackState s = playing"
  by (auto simp add: onmessage_def Let_def emit_def dest!: playing_processAudioChunks
      split: if_splits option.splits)

lemma playbackState_onerror: "playbackState (onerror now s) = stopped"
  by (simp add: onerror_def emit_def playbackState_stop)

lemma playbackState_onclose: "playbackState (onclose now s) = stopped"
  by (simp add: onclose_def emit_def playbackState_stop)

lemma only_the_timer_sets_playing:
  "op \<noteq> op_timer_fires \<Longrightarrow> playbackState (step dec op s) = playing \<Longrightarrow>
   playbackState s = playing"
  by (cases op)
     (auto simp: playbackState_pause playbackState_stop playbackState_onerror
        playbackState_onclose not_playing_playPause not_playing_play
      dest: playing_processAudioChunks playing_setWeightedPrompts playing_setPitchBend
        playing_onmessage)

lemma timer_fires_flip:
  "timers s = (flip_to_playing, d) # rest \<Longrightarrow>
   timer_fires s = s\<lparr>timers := rest, playbackState := playing,
     effects := effects s @ [dispatchEvent (playback_state_changed playing)]\<rparr>"
  by (simp add: timer_fires_def setPlaybackState_def emit_def)

text \<open>
  Claim C2. A chunk processed when the schedule cursor is 0: the priming statement sets the
  cursor to the clock time plus bufferTime, which is 2 seconds, and arms one timer of
  2000 milliseconds. (The same call then schedules the buffer at that cursor and leaves the
  cursor at the buffer's end; the clock reading is a double.) The callback of the timer sets
  the state to playing, the timer is gone once it has fired, and no other method or callback
  of the engine takes the state to playing from another state.
\<close>

theorem first_chunk_primes_cursor_and_arms_timer:
  assumes "playbackState s = loading \<or> playbackState s = playing"
    and "nextStartTime s = 0"
    and "is_double now"
  shows "bufferTime = 2 \<and> dmul bufferTime 1000 = 2000 \<and>
     prime_cursor now s =
       s\<lparr>nextStartTime := dadd now bufferTime,
         timers := timers s @ [(flip_to_playing, dmul bufferTime 1000)]\<rparr> \<and>
     processAudioChunks dec (c # cs) now s =
       (None, s\<lparr>nextStartTime := dadd (dadd now 2) (duration (dec c)),
          timers := timers s @ [(flip_to_playing, 2000)],
          effects := effects s @ [source_start (outputNode s) (dadd now 2) (dec c)]\<rparr>) \<and>
     (\<forall>s' d rest. timers s' = (flip_to_playing, d) # rest \<longrightarrow>
        playbackState (timer_fires s') = playing \<and> timers (timer_fires s') = rest) \<and>
     (\<forall>op s'. op \<noteq> op_timer_fires \<longrightarrow> playbackState (step dec op s') = playing \<longrightarrow>
        playbackState s' = playing)"
proof -
  have "prime_cursor now s =
      s\<lparr>nextStartTime := dadd now bufferTime,
        timers := timers s @ [(flip_to_playing, dmul bufferTime 1000)]\<rparr>"
    using assms(2) by (simp add: prime_cursor_def setTimeout_def)
  moreover have "processAudioChunks dec (c # cs) now s =
      (None, s\<lparr>nextStartTime := dadd (dadd now 2) (duration (dec c)),
         timers := timers s @ [(flip_to_playing, 2000)],
         effects := effects s @ [source_start (outputNode s) (dadd now 2) (dec c)]\<rparr>)"
    using assms by (simp add: processAudioChunks_active resume_first)
  moreover have "\<forall>s' d rest. timers s' = (flip_to_playing, d) # rest \<longrightarrow>
      playbackState (timer_fires s') = playing \<and> timers (timer_fires s') = rest"
    by (simp add: timer_fires_flip)
  moreover have "\<forall>op s'. op \<noteq> op_timer_fires \<longrightarrow> playbackState (step dec op s') = playing \<longrightarrow>
      playbackState s' = playing"
    using only_the_timer_sets_playing by blast
  moreover have "bufferTime = 2" by (simp add: bufferTime_def)
  ultimately show ?thesis using dmul_bufferTime by blast
qed

theorem first_chunk_primes_cursor_and_arms_timer_witness:
  "(playbackState after_play = loading \<or> playbackState after_play = playing) \<and>
   nextStartTime after_play = 0 \<and>
   is_double 0 \<and>
   processAudioChunks (\<lambda>c. one_second) [a_chunk] 0 after_play =
     (None, after_play\<lparr>nextStartTime := 3, timers := [(flip_to_playing, 2000)],
        effects := effects after_play @ [source_start 0 2 one_second]\<rparr>) \<and>
   playbackState (timer_fires (snd (processAudioChunks (\<lambda>c. one_second) [a_chunk] 0 after_play)))
     = playing"
proof -
  have h1: "playbackState after_play = loading \<or> playbackState after_play = playing"
    by (simp add: after_play_eq)
  have h2: "nextStartTime after_play = 0"
    by (simp add: after_play_eq)
  have h3: "is_double 0" by (rule is_double_small)
  from first_chunk_primes_cursor_and_arms_timer
    [OF h1 h2 h3, where dec = "\<lambda>c. one_second" and c = a_chunk and cs = "[]"]
  have run: "processAudioChunks (\<lambda>c. one_second) [a_chunk] 0 after_play =
      (None, after_play\<lparr>nextStartTime := 3, timers := [(flip_to_playing, 2000)],
         effects := effects after_play @ [source_start 0 2 one_second]\<rparr>)"
    and fire: "\<And>s' d rest. timers s' = (flip_to_playing, d) # rest \<Longrightarrow>
      playbackState (timer_fires s') = playing"
    by (simp_all add: duration_one_second dadd_small after_play_eq)
  have "playbackState (timer_fires
      (snd (processAudioChunks (\<lambda>c. one_second) [a_chunk] 0 after_play))) = playing"
    by (rule fire [of _ 2000 "[]"]) (simp add: run)
  with h1 h2 h3 run show ?thesis by simp
qed

text \<open>
  Claim C3. The continuation of processAudioChunks, when it finds the schedule cursor
  nonzero and earlier than the clock: it sets the state to loading, announces it, resets
  the cursor to 0 and does nothing else; the buffer is not scheduled. So does the whole
  call for a chunk that is processed, that is, one that arrives while the engine is
  loading or playing.
\<close>

theorem underrun_drops_chunk:
  assumes "nextStartTime s \<noteq> 0" and "nextStartTime s < now"
  shows "processAudioChunks_resume b now s =
       s\<lparr>playbackState := loading, nextStartTime := 0,
         effects := effects s @ [dispatchEvent (playback_state_changed loading)]\<rparr> \<and>
     scheduled (effects (processAudioChunks_resume b now s)) = scheduled (effects s) \<and>
     (playbackState s = loading \<or> playbackState s = playing \<longrightarrow>
        processAudioChunks dec (c # cs) now s =
          (None, s\<lparr>playbackState := loading, nextStartTime := 0,
             effects := effects s @ [dispatchEvent (playback_state_changed loading)]\<rparr>))"
  using assms by (simp add: processAudioChunks_active resume_underrun scheduled_append)

theorem underrun_drops_chunk_witness:
  "nextStartTime (after_play\<lparr>playbackState := playing, nextStartTime := 3\<rparr>) \<noteq> 0 \<and>
   nextStartTime (after_play\<lparr>playbackState := playing, nextStartTime := 3\<rparr>) < 4 \<and>
   processAudioChunks (\<lambda>c. one_second) [a_chunk] 4
       (after_play\<lparr>playbackState := playing, nextStartTime := 3\<rparr>) =
     (None, after_play\<lparr>playbackState := loading, nextStartTime := 0,
        effects := effects after_play @ [dispatchEvent (playback_state_changed loading)]\<rparr>)"
  using underrun_drops_chunk
    [where s = "after_play\<lparr>playbackState := playing, nextStartTime := 3\<rparr>" and now = 4
       and dec = "\<lambda>c. one_second" and c = a_chunk and cs = "[]"]
  by simp

text \<open>
  Claim C6. A chunk batch delivered while the state is paused or stopped: the call returns
  at its guard, before any decoding is asked for, and leaves the engine exactly as it was:
  nothing is scheduled, the cursor and the state are unchanged, no timer is armed and no
  field keeps the chunk.
\<close>

theorem paused_or_stopped_discards_chunks:
  assumes "playbackState s = paused \<or> playbackState s = stopped"
  shows "processAudioChunks_entry batch s = returned \<and>
     processAudioChunks dec batch now s = (None, s)"
  using assms by (simp add: processAudioChunks_def processAudioChunks_entry_def)

theorem paused_or_stopped_discards_chunks_witness:
  "(playbackState (pause 1 after_play) = paused \<or> playbackState (pause 1 after_play) = stopped) \<and>
   processAudioChunks_entry [a_chunk] (pause 1 after_play) = returned \<and>
   processAudioChunks (\<lambda>c. one_second) [a_chunk] 2 (pause 1 after_play) =
     (None, pause 1 after_play)"
  using paused_or_stopped_discards_chunks
    [where s = "pause 1 after_play" and batch = "[a_chunk]" and dec = "\<lambda>c. one_second"
       and now = 2]
  by (simp add: playbackState_pause)

section \<open>Prompts pushed to the session\<close>

lemma pushed_append: "pushed (xs @ ys) = pushed xs @ pushed ys"
  by (induction xs rule: pushed.induct) auto

lemma pushed_pause_effects: "pushed (pause_effects now s) = []"
  by (simp add: pause_effects_def split: option.splits)

lemma activePrompts_eq:
  "activePrompts (s\<lparr>prompts := ps\<rparr>) =
     filter (\<lambda>p. weight p \<noteq> 0 \<and> text' p \<notin> filteredPrompts s) (map snd ps)"
  by (auto simp: activePrompts_def intro: filter_cong)

lemma setWeightedPrompts_none_active:
  assumes "activePrompts (s\<lparr>prompts := ps\<rparr>) = []"
  shows "setWeightedPrompts ps rejected now s =
     s\<lparr>prompts := ps, playbackState := paused, nextStartTime := 0,
       outputNode := Suc (outputNode s),
       effects := effects s @
         dispatchEvent (error_event msg_no_active_prompt) # pause_effects now s\<rparr>"
  using assms
  by (simp add: setWeightedPrompts_def pause_eq emit_def pause_effects_def)

lemma setWeightedPrompts_no_session:
  assumes "activePrompts (s\<lparr>prompts := ps\<rparr>) \<noteq> []" "session s = None"
  shows "setWeightedPrompts ps rejected now s = s\<lparr>prompts := ps\<rparr>"
  using assms by (simp add: setWeightedPrompts_def)

lemma setWeightedPrompts_push:
  assumes "activePrompts (s\<lparr>prompts := ps\<rparr>) \<noteq> []" "session s = Some h"
  shows "effects (setWeightedPrompts ps rejected now s) =
     effects s @
       session_call h (session_setWeightedPrompts
          (map (\<lambda>p. (text' p, weight p)) (activePrompts (s\<lparr>prompts := ps\<rparr>)))) #
       (case rejected of
          None \<Rightarrow> []
        | Some msg \<Rightarrow> dispatchEvent (error_event msg) # pause_effects now s)"
  using assms
  by (cases rejected)
     (simp_all add: setWeightedPrompts_def pause_eq emit_def pause_effects_def Let_def)

lemma setWeightedPrompts_pushed:
  "effects (setWeightedPrompts ps rejected now s) =
     effects s @ drop (length (effects s)) (effects (setWeightedPrompts ps rejected now s)) \<and>
   pushed (drop (length (effects s)) (effects (setWeightedPrompts ps rejected now s))) =
     (if session s \<noteq> None \<and> activePrompts (s\<lparr>prompts := ps\<rparr>) \<noteq> []
      then [map (\<lambda>p. (text' p, weight p)) (activePrompts (s\<lparr>prompts := ps\<rparr>))]
      else [])"
proof (cases "activePrompts (s\<lparr>prompts := ps\<rparr>) = []")
  case True
  then show ?thesis
    by (simp add: setWeightedPrompts_none_active pushed_pause_effects)
next
  case False
  show ?thesis
  proof (cases "session s")
    case None
    with False show ?thesis by (simp add: setWeightedPrompts_no_session)
  next
    case (Some h)
    with False show ?thesis
      by (simp add: setWeightedPrompts_push pushed_pause_effects split: option.splits)
  qed
qed

text \<open>
  Claim C7. For every prompt map and every set of filtered texts, one run of
  setWeightedPrompts appends effects among which the prompts are pushed at most once: once
  when there is a session and some prompt is active, with the list of the pairs of text and
  weight of the prompts whose weight is nonzero and whose text is not filtered, in the
  order of the map, and not at all otherwise. Whatever is pushed has, as a set, exactly
  those pairs; no pushed pair has weight 0 or a filtered text.
\<close>

theorem pushed_prompts_are_the_active_ones:
  "let s' = setWeightedPrompts ps rejected now s;
       new = drop (length (effects s)) (effects s');
       active = filter (\<lambda>p. weight p \<noteq> 0 \<and> text' p \<notin> filteredPrompts s) (map snd ps)
   in effects s' = effects s @ new \<and>
      pushed new =
        (if session s \<noteq> None \<and> active \<noteq> [] then [map (\<lambda>p. (text' p, weight p)) active]
         else []) \<and>
      (\<forall>ws \<in> set (pushed new).
         set ws = {(text' p, weight p) |p.
                     p \<in> snd ` set ps \<and> weight p \<noteq> 0 \<and> text' p \<notin> filteredPrompts s} \<and>
         (\<forall>(t, w) \<in> set ws. w \<noteq> 0 \<and> t \<notin> filteredPrompts s))"
proof -
  let ?new = "drop (length (effects s)) (effects (setWeightedPrompts ps rejected now s))"
  let ?active = "filter (\<lambda>p. weight p \<noteq> 0 \<and> text' p \<notin> filteredPrompts s) (map snd ps)"
  from setWeightedPrompts_pushed [of ps rejected now s]
  have eff: "effects (setWeightedPrompts ps rejected now s) = effects s @ ?new"
    and push: "pushed ?new =
      (if session s \<noteq> None \<and> ?active \<noteq> [] then [map (\<lambda>p. (text' p, weight p)) ?active]
       else [])"
    by (simp_all only: activePrompts_eq)
  have "\<forall>ws \<in> set (pushed ?new).
      set ws = {(text' p, weight p) |p.
                  p \<in> snd ` set ps \<and> weight p \<noteq> 0 \<and> text' p \<notin> filteredPrompts s} \<and>
      (\<forall>(t, w) \<in> set ws. w \<noteq> 0 \<and> t \<notin> filteredPrompts s)"
    unfolding push by (auto split: if_splits)
  with eff push show ?thesis unfolding Let_def by blast
qed

theorem pushed_prompts_are_the_active_ones_witness:
  "pushed (drop (length (effects (after_play\<lparr>filteredPrompts := {''Punk''}\<rparr>)))
     (effects (setWeightedPrompts three_prompts None 1
        (after_play\<lparr>filteredPrompts := {''Punk''}\<rparr>)))) = [[(''Bossa Nova'', 1)]]"
  using pushed_prompts_are_the_active_ones
    [where s = "after_play\<lparr>filteredPrompts := {''Punk''}\<rparr>" and ps = three_prompts
       and rejected = None and now = 1]
  by (simp add: Let_def three_prompts_def after_play_eq)

text \<open>
  Claim C8. A run of setWeightedPrompts after which no prompt is active: the engine
  dispatches the error event, then does what pause() does (the state becomes paused);
  the prompts are not pushed; the session handle and the connect promise stay as they were.
\<close>

theorem no_active_prompt_pauses:
  assumes "activePrompts (s\<lparr>prompts := ps\<rparr>) = []"
  shows "let s' = setWeightedPrompts ps rejected now s;
             new = drop (length (effects s)) (effects s')
         in effects s' = effects s @ new \<and>
            new = dispatchEvent (error_event msg_no_active_prompt) # pause_effects now s \<and>
            pushed new = [] \<and>
            playbackState s' = paused \<and>
            session s' = session s \<and>
            sessionPromise s' = sessionPromise s"
  unfolding Let_def setWeightedPrompts_none_active [OF assms]
  by (simp add: pushed_pause_effects)

theorem no_active_prompt_pauses_witness:
  "activePrompts (after_play\<lparr>filteredPrompts := {''Punk''}, playbackState := playing,
      prompts := tl three_prompts\<rparr>) = [] \<and>
   playbackState (setWeightedPrompts (tl three_prompts) None 1
      (after_play\<lparr>filteredPrompts := {''Punk''}, playbackState := playing\<rparr>)) = paused \<and>
   session (setWeightedPrompts (tl three_prompts) None 1
      (after_play\<lparr>filteredPrompts := {''Punk''}, playbackState := playing\<rparr>)) = Some 1 \<and>
   pushed (drop (length (effects after_play)) (effects (setWeightedPrompts (tl three_prompts) None 1
      (after_play\<lparr>filteredPrompts := {''Punk''}, playbackState := playing\<rparr>)))) = []"
proof -
  let ?s = "after_play\<lparr>filteredPrompts := {''Punk''}, playbackState := playing\<rparr>"
  have h: "activePrompts (?s\<lparr>prompts := tl three_prompts\<rparr>) = []"
    by (simp add: activePrompts_def three_prompts_def)
  have se: "session ?s = Some 1" and ef: "effects ?s = effects after_play"
    by (simp_all add: after_play_eq)
  note r = no_active_prompt_pauses
    [where s = ?s and ps = "tl three_prompts" and rejected = None and now = 1, OF h,
     unfolded Let_def ef]
  from r have "playbackState (setWeightedPrompts (tl three_prompts) None 1 ?s) = paused"
    and "session (setWeightedPrompts (tl three_prompts) None 1 ?s) = session ?s"
    and "pushed (drop (length (effects after_play))
      (effects (setWeightedPrompts (tl three_prompts) None 1 ?s))) = []"
    by blast+
  with h se show ?thesis by simp
qed

section \<open>Connection failure\<close>

text \<open>
  Claim C9. When the callback onerror of the connection fires, in whatever state the
  engine is: the state becomes stopped, the cursor 0, the session handle and the connect
  promise null, and the error event is the last thing dispatched (after the remote stop if
  there was a session, the state notification and the fade). The callback onclose does the
  same.
\<close>

theorem connection_error_stops:
  "onerror now s =
     s\<lparr>connectionError := True, playbackState := stopped, nextStartTime := 0,
       session := None, sessionPromise := None,
       effects := effects s @ stop_effects now s @
         [dispatchEvent (error_event msg_connection)]\<rparr> \<and>
   onclose now s = onerror now s"
  by (simp add: onerror_def onclose_def stop_eq emit_def stop_effects_def)

section \<open>Stopping or pausing while work is pending\<close>

lemma a_chunk_processed:
  "snd (processAudioChunks (\<lambda>c. one_second) [a_chunk] 0 after_play) =
     after_play\<lparr>nextStartTime := 3, timers := [(flip_to_playing, 2000)],
       effects := effects after_play @ [source_start 0 2 one_second]\<rparr>"
  by (simp add: processAudioChunks_active resume_first is_double_small dadd_small
      duration_one_second after_play_eq)

text \<open>
  Claim C4, on the code. The engine is loading; a chunk batch passes the guard and its
  decode is awaited; stop() runs at clock time 1/2; the decode completes at clock time 1.
  The continuation does not look at the state again: it finds the cursor at 0, primes it,
  arms the timer, schedules the buffer at 3 and moves the cursor to 4, in an engine that is
  stopped.
\<close>

theorem stop_during_decode_still_schedules:
  "processAudioChunks_entry [a_chunk] after_play = awaiting a_chunk \<and>
   playbackState (stop (1 / 2) after_play) = stopped \<and>
   nextStartTime (stop (1 / 2) after_play) = 0 \<and>
   scheduled (effects (stop (1 / 2) after_play)) = [] \<and>
   processAudioChunks_resume one_second 1 (stop (1 / 2) after_play) =
     (stop (1 / 2) after_play)
       \<lparr>nextStartTime := 4, timers := [(flip_to_playing, 2000)],
        effects := effects (stop (1 / 2) after_play) @ [source_start 0 3 one_second]\<rparr> \<and>
   scheduled (effects (processAudioChunks_resume one_second 1 (stop (1 / 2) after_play))) =
     [(3, one_second)] \<and>
   nextStartTime (processAudioChunks_resume one_second 1 (stop (1 / 2) after_play)) = 4"
proof -
  have "processAudioChunks_entry [a_chunk] after_play = awaiting a_chunk"
    by (simp add: processAudioChunks_entry_def after_play_eq)
  moreover have z: "nextStartTime (stop (1 / 2) after_play) = 0"
    by (simp add: stop_eq)
  moreover have "scheduled (effects (stop (1 / 2) after_play)) = []"
    by (simp add: stop_eq stop_effects_def after_play_eq)
  moreover have "timers (stop (1 / 2) after_play) = []" "outputNode (stop (1 / 2) after_play) = 0"
    by (simp_all add: stop_eq after_play_eq)
  ultimately show ?thesis
    by (simp add: resume_first [OF z is_double_small(2)] dadd_small duration_one_second
        playbackState_stop scheduled_append)
qed

text \<open>
  Claim C5, on the code. The first chunk arms the timer at clock time 0; stop() (or
  pause()) runs at clock time 1/2 and leaves the timer pending; when the timer fires the
  state, which was stopped (or paused), becomes playing.
\<close>

theorem stale_timer_flips_to_playing:
  "timers (snd (processAudioChunks (\<lambda>c. one_second) [a_chunk] 0 after_play)) =
     [(flip_to_playing, 2000)] \<and>
   timers (stop (1 / 2) (snd (processAudioChunks (\<lambda>c. one_second) [a_chunk] 0 after_play))) =
     [(flip_to_playing, 2000)] \<and>
   playbackState (stop (1 / 2)
      (snd (processAudioChunks (\<lambda>c. one_second) [a_chunk] 0 after_play))) = stopped \<and>
   playbackState (timer_fires (stop (1 / 2)
      (snd (processAudioChunks (\<lambda>c. one_second) [a_chunk] 0 after_play)))) = playing \<and>
   timers (pause (1 / 2) (snd (processAudioChunks (\<lambda>c. one_second) [a_chunk] 0 after_play))) =
     [(flip_to_playing, 2000)] \<and>
   playbackState (pause (1 / 2)
      (snd (processAudioChunks (\<lambda>c. one_second) [a_chunk] 0 after_play))) = paused \<and>
   playbackState (timer_fires (pause (1 / 2)
      (snd (processAudioChunks (\<lambda>c. one_second) [a_chunk] 0 after_play)))) = playing"
  unfolding a_chunk_processed
  by (simp add: stop_eq pause_eq timer_fires_flip [where d = 2000 and rest = "[]"])

section \<open>Pitch bend messages\<close>

lemma or_shift_int:
  fixes M L :: int
  assumes "0 \<le> L" "L < 128"
  shows "push_bit 7 M OR L = M * 128 + L"
proof -
  have L: "take_bit 7 L = L" using assms by (simp add: take_bit_int_eq_self)
  have "push_bit 7 M AND take_bit 7 L = 0" by (rule bit_eqI) (auto simp: bit_simps)
  then have "push_bit 7 M + L = push_bit 7 M OR L" using L by (simp add: disjunctive_add_eq_or)
  then show ?thesis by (simp add: push_bit_eq_mult)
qed

lemma uint_raw:
  fixes l m :: "32 word"
  assumes "uint m < 256"
  shows "uint (push_bit 7 m OR l) = push_bit 7 (uint m) OR uint l"
proof -
  have "push_bit 7 (uint m) < 2 ^ 32" using assms by (simp add: push_bit_eq_mult)
  moreover have "0 \<le> push_bit 7 (uint m)" by simp
  ultimately have "take_bit 32 (push_bit 7 (uint m)) = push_bit 7 (uint m)"
    by (simp add: take_bit_int_eq_self)
  then show ?thesis
    by (simp add: uint_or unsigned_push_bit_eq)
qed

lemma sint_raw:
  fixes l m :: "32 word"
  assumes "uint m < 256" "l \<le> 127"
  shows "sint (push_bit 7 m OR l) = uint m * 128 + uint l"
proof -
  from assms(2) have L: "uint l < 128" by (simp add: word_le_def)
  have u: "uint (push_bit 7 m OR l) = uint m * 128 + uint l"
    using L by (simp add: uint_raw [OF assms(1)] or_shift_int)
  have hi: "uint m * 128 + uint l < 2 ^ 31" using assms(1) L by simp
  have nn: "0 \<le> uint m * 128 + uint l" by simp
  have "- (2 ^ 31) \<le> (0::int)" by simp
  from this nn have lo: "- (2 ^ 31) \<le> uint m * 128 + uint l" by (rule order_trans)
  have "signed_take_bit 31 (uint m * 128 + uint l) = uint m * 128 + uint l"
    by (rule signed_take_bit_int_eq_self [OF lo hi])
  then show ?thesis by (simp add: sint_uint u)
qed

lemma pitch_range:
  fixes l m :: "32 word"
  assumes "l \<le> 127" "m \<le> 127"
  shows "(real_of_int (sint (push_bit 7 m OR l)) - 8192) / 8192 =
      (real_of_int (uint m * 128 + uint l) - 8192) / 8192
    \<and> - 1 \<le> (real_of_int (sint (push_bit 7 m OR l)) - 8192) / 8192
    \<and> (real_of_int (sint (push_bit 7 m OR l)) - 8192) / 8192 < 1"
proof -
  define k where "k = uint m * 128 + uint l"
  from assms have L: "uint l \<le> 127" and M: "uint m \<le> 127" by (simp_all add: word_le_def)
  from M have M': "uint m < 256" by simp
  have lo: "0 \<le> k" by (simp add: k_def)
  have hi: "k \<le> 16383" using L M by (simp add: k_def)
  have eq: "sint (push_bit 7 m OR l) = k"
    by (simp add: k_def sint_raw [OF M' assms(1)])
  show ?thesis unfolding eq k_def [symmetric] using lo hi by simp
qed

lemma onmidimessage_inactive: "Some i \<noteq> a \<Longrightarrow> onmidimessage i a dat = []"
  by (simp add: onmidimessage_def)

lemma onmidimessage_pitch:
  "ToInt32 (at_index d 0) AND 0xf0 = 0xe0 \<Longrightarrow>
   onmidimessage i (Some i) (Some d) =
     [pitch_bend_message
        ((real_of_int (sint (push_bit 7 (ToInt32 (at_index d 2)) OR ToInt32 (at_index d 1)))
           - 8192) / 8192)]"
  by (simp add: onmidimessage_def Let_def)

text \<open>
  Claim C10. A message from an input other than the active one dispatches no event. A
  message from the active input whose status byte has high nibble 0xE0 dispatches exactly
  one event, a pitch bend whose value is ((data[2] << 7 | data[1]) - 8192) / 8192. When
  both data bytes are at most 127 the raw value is 128 * data[2] + data[1] and the value
  dispatched lies in the interval from -1 (included) to 1 (excluded).
\<close>

theorem pitch_bend_dispatch:
  "let lsb = ToInt32 (at_index d 1);
       msb = ToInt32 (at_index d 2);
       v = (real_of_int (sint (push_bit 7 msb OR lsb)) - 8192) / 8192
   in (Some i \<noteq> a \<longrightarrow> onmidimessage i a dat = []) \<and>
      (ToInt32 (at_index d 0) AND 0xf0 = 0xe0 \<longrightarrow>
         onmidimessage i (Some i) (Some d) = [pitch_bend_message v]) \<and>
      (lsb \<le> 127 \<and> msb \<le> 127 \<longrightarrow>
         v = (real_of_int (uint msb * 128 + uint lsb) - 8192) / 8192 \<and> - 1 \<le> v \<and> v < 1)"
  unfolding Let_def
  using onmidimessage_inactive [of i a dat] onmidimessage_pitch [of d i]
    pitch_range [of "ToInt32 (at_index d 1)" "ToInt32 (at_index d 2)"]
  by blast

theorem pitch_bend_dispatch_witness:
  "onmidimessage ''input-1'' (Some ''input-1'') (Some [0xE0, 0x7F, 0x7F]) =
     [pitch_bend_message (8191 / 8192)] \<and>
   onmidimessage ''input-1'' (Some ''input-1'') (Some [0xE5, 0, 0]) = [pitch_bend_message (- 1)] \<and>
   onmidimessage ''input-2'' (Some ''input-1'') (Some [0xE0, 0x7F, 0x7F]) = []"
proof -
  have a: "onmidimessage ''input-1'' (Some ''input-1'') (Some [0xE0, 0x7F, 0x7F]) =
      [pitch_bend_message (8191 / 8192)]"
    using pitch_bend_dispatch [where d = "[0xE0, 0x7F, 0x7F]" and i = "''input-1''"]
    by (simp add: Let_def ToInt32_def at_index_def)
  have b: "onmidimessage ''input-1'' (Some ''input-1'') (Some [0xE5, 0, 0]) =
      [pitch_bend_message (- 1)]"
    using pitch_bend_dispatch [where d = "[0xE5, 0, 0]" and i = "''input-1''"]
    by (simp add: Let_def ToInt32_def at_index_def)
  have c: "onmidimessage ''input-2'' (Some ''input-1'') (Some [0xE0, 0x7F, 0x7F]) = []"
    using pitch_bend_dispatch
      [where i = "''input-2''" and a = "Some ''input-1''" and dat = "Some [0xE0, 0x7F, 0x7F]"]
    by (simp add: Let_def)
  from a b c show ?thesis by simp
qed

end
